theory Spec2Isabelle
  imports Main
begin

section \<open>The heartbeat senders \<open>heartbeat.py\<close> and \<open>heartbeat_client.py\<close>\<close>

text \<open>
  Both scripts parse \<open>--host\<close> and \<open>--port\<close>, open one TCP socket, connect, and then
  send \<open>heartbeat\n\<close> every two seconds. Everything they do is a call into the
  operating system (socket, connect, print, sendall, sleep, close), and every such call
  either returns or raises. The model therefore runs \<open>main\<close> against an environment
  that decides, for the k-th call the process makes, whether it returns or which
  exception it raises; the run yields the list of calls made, in order, and the way
  \<open>main\<close> ended. Argument parsing is outside the model: \<open>main\<close> starts from the
  parsed host and port.
\<close>

subsection \<open>Exceptions\<close>

text \<open>
  The exception classes the handlers of the two scripts tell apart. \<open>OtherOSError\<close>
  stands for any other \<open>OSError\<close> (connection refused apart), \<open>OtherException\<close> for any
  other subclass of \<open>Exception\<close>. \<open>KeyboardInterrupt\<close> derives from \<open>BaseException\<close>
  only. An exception carries the text \<open>str(ex)\<close> gives.
\<close>

datatype exn_class =
    ConnectionResetError
  | ConnectionAbortedError
  | BrokenPipeError
  | ConnectionRefusedError
  | OtherOSError
  | OtherException
  | KeyboardInterrupt

datatype exn = Exn exn_class string

text \<open>\<open>isinstance(ex, Exception)\<close>, the test of \<open>except Exception\<close>.\<close>

fun is_Exception :: "exn \<Rightarrow> bool" where
  "is_Exception (Exn c m) = (c \<noteq> KeyboardInterrupt)"

fun is_KeyboardInterrupt :: "exn \<Rightarrow> bool" where
  "is_KeyboardInterrupt (Exn c m) = (c = KeyboardInterrupt)"

text \<open>\<open>except (BrokenPipeError, ConnectionResetError)\<close>, heartbeat.py line 18.\<close>

fun caught_A :: "exn \<Rightarrow> bool" where
  "caught_A (Exn c m) = (c = BrokenPipeError \<or> c = ConnectionResetError)"

text \<open>
  \<open>except (ConnectionResetError, ConnectionAbortedError, BrokenPipeError)\<close>,
  heartbeat_client.py line 22.
\<close>

fun caught_B :: "exn \<Rightarrow> bool" where
  "caught_B (Exn c m) =
     (c = ConnectionResetError \<or> c = ConnectionAbortedError \<or> c = BrokenPipeError)"

subsection \<open>Calls, traces and the environment\<close>

text \<open>
  The calls a process can make on its socket, its standard output and its clock.
  \<open>Recv\<close> is the socket's read; neither script ever issues it.
\<close>

datatype call =
    SocketNew
  | Connect string int
  | Print string
  | SendAll string
  | Sleep nat
  | Close
  | Recv nat

type_synonym trace = "call list"

text \<open>
  The environment: \<open>env k = None\<close> when the k-th call of the run (counted from 0)
  returns, \<open>env k = Some e\<close> when it raises \<open>e\<close>. An operator's interrupt is a
  \<open>KeyboardInterrupt\<close> raised by the call during which it arrives.
\<close>

type_synonym env = "nat \<Rightarrow> exn option"

text \<open>
  How a block of statements ends: it completes; it raises an exception of the
  environment; it raises \<open>SystemExit\<close> through \<open>sys.exit\<close> (which no handler of
  either script catches, \<open>SystemExit\<close> not being an \<open>Exception\<close>); or it is still
  running when the bound on the number of loop iterations is reached.
\<close>

datatype status = Done | Raise exn | SysExit int | Pending

definition perform :: "env \<Rightarrow> call \<Rightarrow> trace \<Rightarrow> status \<times> trace" where
  "perform env c tr =
     ((case env (length tr) of None \<Rightarrow> Done | Some e \<Rightarrow> Raise e), tr @ [c])"

text \<open>Sequencing: the next statement runs only if the previous one completed.\<close>

fun andthen :: "status \<times> trace \<Rightarrow> (trace \<Rightarrow> status \<times> trace) \<Rightarrow> status \<times> trace" where
  "andthen (Done, tr) k = k tr"
| "andthen (r, tr) k = (r, tr)"

text \<open>
  Releasing the socket, as the \<open>with\<close> statement of heartbeat.py and the \<open>finally\<close>
  clause of heartbeat_client.py do: \<open>close\<close> is called however the block ended, and
  the block's own ending stands unless \<open>close\<close> itself raises. A block that is still
  running has not reached the release.
\<close>

fun release :: "env \<Rightarrow> status \<times> trace \<Rightarrow> status \<times> trace" where
  "release env (Pending, tr) = (Pending, tr)"
| "release env (r, tr) =
     (case perform env Close tr of
        (Done, tr') \<Rightarrow> (r, tr')
      | (r', tr') \<Rightarrow> (r', tr'))"

subsection \<open>Constants of the scripts\<close>

definition heartbeat :: string where
  "heartbeat = ''heartbeat'' @ [CHR 0x0A]"

definition interval :: nat where
  "interval = 2"

definition msg_connected :: string where
  "msg_connected = ''Python: Connected to QuPath workflow, sending heartbeats.''"

definition msg_disconnected_A :: string where
  "msg_disconnected_A = ''Python: QuPath disconnected or closed. Exiting.''"

definition msg_interrupted_A :: string where
  "msg_interrupted_A = ''Python: Interrupted, exiting.''"

definition msg_lost_B :: string where
  "msg_lost_B = ''Python: Lost connection to QuPath workflow, exiting.''"

definition msg_could_not_connect_B :: "string \<Rightarrow> string" where
  "msg_could_not_connect_B m = ''Python: Could not connect to QuPath: '' @ m"

subsection \<open>heartbeat.py\<close>

text \<open>
  Lines 15 to 17, \<open>while True: s.sendall(b"heartbeat\n"); time.sleep(2)\<close>. The first
  argument bounds the number of iterations looked at; the loop itself has no exit.
\<close>

primrec loop_A :: "nat \<Rightarrow> env \<Rightarrow> trace \<Rightarrow> status \<times> trace" where
  "loop_A 0 env tr = (Pending, tr)"
| "loop_A (Suc n) env tr =
     andthen (perform env (SendAll heartbeat) tr) (\<lambda>tr.
     andthen (perform env (Sleep interval) tr) (\<lambda>tr.
     loop_A n env tr))"

text \<open>Lines 18 to 21, the two \<open>except\<close> clauses of the \<open>try\<close> around the loop.\<close>

fun except_A :: "env \<Rightarrow> status \<times> trace \<Rightarrow> status \<times> trace" where
  "except_A env (Raise e, tr) =
     (if caught_A e then perform env (Print msg_disconnected_A) tr
      else if is_KeyboardInterrupt e then perform env (Print msg_interrupted_A) tr
      else (Raise e, tr))"
| "except_A env (r, tr) = (r, tr)"

text \<open>
  Lines 11 to 21. The socket is created by the \<open>with\<close> statement; \<open>connect\<close> and the
  first \<open>print\<close> are inside \<open>with\<close> but outside \<open>try\<close>.
\<close>

definition main_A :: "nat \<Rightarrow> env \<Rightarrow> string \<Rightarrow> int \<Rightarrow> status \<times> trace" where
  "main_A fuel env host port =
     andthen (perform env SocketNew []) (\<lambda>tr.
     release env
       (andthen (perform env (Connect host port) tr) (\<lambda>tr.
        andthen (perform env (Print msg_connected) tr) (\<lambda>tr.
        except_A env (loop_A fuel env tr)))))"

subsection \<open>heartbeat_client.py\<close>

text \<open>
  Lines 18 to 24: the \<open>try\<close> is inside the loop, and its handler leaves the loop
  with \<open>break\<close> after printing.
\<close>

fun except_inner_B :: "env \<Rightarrow> status \<times> trace \<Rightarrow> (trace \<Rightarrow> status \<times> trace) \<Rightarrow> status \<times> trace" where
  "except_inner_B env (Done, tr) continue = continue tr"
| "except_inner_B env (Raise e, tr) continue =
     (if caught_B e then perform env (Print msg_lost_B) tr else (Raise e, tr))"
| "except_inner_B env (SysExit n, tr) continue = (SysExit n, tr)"
| "except_inner_B env (Pending, tr) continue = (Pending, tr)"

primrec loop_B :: "nat \<Rightarrow> env \<Rightarrow> trace \<Rightarrow> status \<times> trace" where
  "loop_B 0 env tr = (Pending, tr)"
| "loop_B (Suc n) env tr =
     except_inner_B env
       (andthen (perform env (SendAll heartbeat) tr) (\<lambda>tr.
        perform env (Sleep interval) tr))
       (\<lambda>tr. loop_B n env tr)"

text \<open>
  Lines 25 to 27, \<open>except Exception as ex\<close>: print the message with \<open>str(ex)\<close>, then
  \<open>sys.exit(1)\<close>.
\<close>

fun except_outer_B :: "env \<Rightarrow> status \<times> trace \<Rightarrow> status \<times> trace" where
  "except_outer_B env (Raise (Exn c m), tr) =
     (if c \<noteq> KeyboardInterrupt
      then andthen (perform env (Print (msg_could_not_connect_B m)) tr) (\<lambda>tr.
           (SysExit 1, tr))
      else (Raise (Exn c m), tr))"
| "except_outer_B env (r, tr) = (r, tr)"

text \<open>
  Lines 14 to 29. The socket is created before the \<open>try\<close>; the \<open>finally\<close> clause
  closes it.
\<close>

definition main_B :: "nat \<Rightarrow> env \<Rightarrow> string \<Rightarrow> int \<Rightarrow> status \<times> trace" where
  "main_B fuel env host port =
     andthen (perform env SocketNew []) (\<lambda>tr.
     release env
       (except_outer_B env
          (andthen (perform env (Connect host port) tr) (\<lambda>tr.
           andthen (perform env (Print msg_connected) tr) (\<lambda>tr.
           loop_B fuel env tr)))))"

subsection \<open>What an observer sees\<close>

text \<open>
  The exit status of the process once \<open>main\<close> has ended. The interpreter first flushes
  the standard streams; this is the call that follows the last call of \<open>main\<close>, so the
  environment decides it at the index \<open>length tr\<close>. The status is 0 when \<open>main\<close> returned,
  the code given to \<open>sys.exit\<close>, and 1 when an exception was left unhandled (CPython
  prints the traceback on standard error); it is 120 instead when the flush fails, as it
  does when buffered output of earlier \<open>print\<close> calls cannot be written. An unhandled
  \<open>KeyboardInterrupt\<close> ends the process, after the flush, as if killed by the interrupt
  signal, which a shell on POSIX reports as 130. A run that has not ended has no status.
\<close>

fun exit_status :: "env \<Rightarrow> status \<times> trace \<Rightarrow> int option" where
  "exit_status env (Done, tr) = Some (if env (length tr) = None then 0 else 120)"
| "exit_status env (SysExit n, tr) = Some (if env (length tr) = None then n else 120)"
| "exit_status env (Raise (Exn c m), tr) =
     Some (if c = KeyboardInterrupt then 130 else if env (length tr) = None then 1 else 120)"
| "exit_status env (Pending, tr) = None"

text \<open>The calls of a trace that returned, in order.\<close>

definition completed :: "env \<Rightarrow> trace \<Rightarrow> call list" where
  "completed env tr = map snd (filter (\<lambda>(k, c). env k = None) (enumerate 0 tr))"

fun printed_line :: "call \<Rightarrow> string option" where
  "printed_line (Print m) = Some m"
| "printed_line c = None"

text \<open>
  The lines the script has written to standard output: the arguments of its \<open>print\<close>
  calls that returned. Python may hold them in its buffer until the final flush.
\<close>

definition printed :: "env \<Rightarrow> trace \<Rightarrow> string list" where
  "printed env tr = List.map_filter printed_line (completed env tr)"

fun on_wire :: "call \<Rightarrow> bool" where
  "on_wire (SendAll b) = True"
| "on_wire (Sleep n) = True"
| "on_wire c = False"

text \<open>
  What the peer can observe: the payloads written to the socket and the pauses
  between them.
\<close>

definition wire :: "env \<Rightarrow> trace \<Rightarrow> call list" where
  "wire env tr = filter on_wire (completed env tr)"

text \<open>Connection attempts and writes to the socket, for counting them in a trace.\<close>

fun is_Connect :: "call \<Rightarrow> bool" where
  "is_Connect (Connect host port) = True"
| "is_Connect c = False"

fun is_SendAll :: "call \<Rightarrow> bool" where
  "is_SendAll (SendAll b) = True"
| "is_SendAll c = False"

subsection \<open>Reference runs\<close>

text \<open>\<open>n\<close> rounds of the loop body: a send, then a pause.\<close>

definition beats :: "nat \<Rightarrow> trace" where
  "beats n = concat (replicate n [SendAll heartbeat, Sleep interval])"

text \<open>The calls of a run in which nothing has raised, \<open>n\<close> rounds into the loop.\<close>

definition undisturbed :: "string \<Rightarrow> int \<Rightarrow> nat \<Rightarrow> trace" where
  "undisturbed host port n = [SocketNew, Connect host port, Print msg_connected] @ beats n"

text \<open>
  The calls number 0 to \<open>j\<close> of a run in which nothing raised before call \<open>j\<close>: call 0
  creates the socket, call 1 connects, call 2 prints the banner, call \<open>3 + 2 * i\<close> is the
  send of round \<open>i\<close> and call \<open>4 + 2 * i\<close> its sleep.
\<close>

definition calls_through :: "string \<Rightarrow> int \<Rightarrow> nat \<Rightarrow> trace" where
  "calls_through host port j = take (Suc j) (undisturbed host port j)"

text \<open>The environment in which only call \<open>j\<close> raises.\<close>

definition fault_at :: "nat \<Rightarrow> exn \<Rightarrow> env" where
  "fault_at j e = (\<lambda>k. if k = j then Some e else None)"

section \<open>Properties\<close>

subsection \<open>The loop\<close>

lemma snd_perform [simp]: "snd (perform env c tr) = tr @ [c]"
  by (simp add: perform_def)

lemma beats_Suc: "beats (Suc n) = [SendAll heartbeat, Sleep interval] @ beats n"
  by (simp add: beats_def)

lemma length_beats [simp]: "length (beats n) = 2 * n"
  by (induction n) (simp_all add: beats_def)

lemma beats_add: "beats (n + m) = beats n @ beats m"
  by (simp add: beats_def replicate_add)

lemma calls_through_1: "calls_through host port (Suc 0) = [SocketNew, Connect host port]"
  by (simp add: calls_through_def undisturbed_def)

lemma calls_through_2:
  "calls_through host port 2 = [SocketNew, Connect host port, Print msg_connected]"
  by (simp add: calls_through_def undisturbed_def numeral_2_eq_2)

lemma calls_through_loop:
  assumes "d \<le> 1"
  shows "calls_through host port (3 + 2 * i + d) =
           undisturbed host port i @ take (Suc d) [SendAll heartbeat, Sleep interval]"
proof -
  have "3 + 2 * i + d = i + Suc (2 + i + d)" by simp
  then have "beats (3 + 2 * i + d) = beats i @ beats (Suc (2 + i + d))"
    by (simp only: beats_add)
  then have b: "beats (3 + 2 * i + d) =
      beats i @ [SendAll heartbeat, Sleep interval] @ beats (2 + i + d)"
    by (simp only: beats_Suc)
  from assms have "d = 0 \<or> d = 1" by arith
  then show ?thesis
    unfolding calls_through_def undisturbed_def b
    by (auto simp: numeral_3_eq_3)
qed

lemma length_calls_through [simp]: "length (calls_through host port j) = Suc j"
  by (simp add: calls_through_def undisturbed_def)

lemma loop_A_quiet:
  "(\<forall>k. length tr \<le> k \<and> k < length tr + 2 * n \<longrightarrow> env k = None) \<Longrightarrow>
   loop_A (n + m) env tr = loop_A m env (tr @ beats n)"
proof (induction n arbitrary: tr)
  case 0
  then show ?case by (simp add: beats_def)
next
  case (Suc n)
  have a: "env (length tr) = None" and b: "env (Suc (length tr)) = None"
    using Suc.prems by simp_all
  let ?tr = "tr @ [SendAll heartbeat, Sleep interval]"
  have "\<forall>k. length ?tr \<le> k \<and> k < length ?tr + 2 * n \<longrightarrow> env k = None"
    using Suc.prems by simp
  from Suc.IH [OF this] have "loop_A (n + m) env ?tr = loop_A m env (?tr @ beats n)" .
  then show ?case using a b
    by (simp add: perform_def beats_Suc)
qed

lemma loop_A_fault:
  assumes q: "\<forall>k. length tr \<le> k \<and> k < length tr + 2 * i + d \<longrightarrow> env k = None"
    and e: "env (length tr + 2 * i + d) = Some e"
    and d: "d \<le> 1" and i: "i < n"
  shows "loop_A n env tr =
           (Raise e, tr @ beats i @ take (Suc d) [SendAll heartbeat, Sleep interval])"
proof -
  define m where "m = n - Suc i"
  with i have n: "n = i + Suc m" by simp
  have "\<forall>k. length tr \<le> k \<and> k < length tr + 2 * i \<longrightarrow> env k = None"
    using q by simp
  then have step: "loop_A n env tr = loop_A (Suc m) env (tr @ beats i)"
    unfolding n by (rule loop_A_quiet)
  let ?tr = "tr @ beats i"
  have len: "length ?tr = length tr + 2 * i" by simp
  from d have "d = 0 \<or> d = 1" by arith
  then show ?thesis
  proof
    assume d0: "d = 0"
    with e have "loop_A (Suc m) env ?tr = (Raise e, ?tr @ [SendAll heartbeat])"
      by (simp add: perform_def)
    with step d0 show ?thesis by simp
  next
    assume d1: "d = 1"
    with q have "env (length tr + 2 * i) = None" by simp
    with e d1 have "loop_A (Suc m) env ?tr = (Raise e, ?tr @ [SendAll heartbeat, Sleep interval])"
      by (simp add: perform_def)
    with step d1 show ?thesis by simp
  qed
qed

lemma loop_A_not_Done: "fst (loop_A n env tr) \<noteq> Done"
proof (induction n arbitrary: tr)
  case 0
  show ?case by simp
next
  case (Suc n)
  show ?case
    by (cases "env (length tr)"; cases "env (Suc (length tr))")
       (simp_all add: perform_def Suc.IH)
qed

lemma loop_A_trace:
  "\<exists>ys. snd (loop_A n env tr) = tr @ ys \<and> set ys \<subseteq> {SendAll heartbeat, Sleep interval}"
proof (induction n arbitrary: tr)
  case 0
  show ?case by simp
next
  case (Suc n)
  from Suc.IH [of "tr @ [SendAll heartbeat, Sleep interval]"]
  obtain ys where "snd (loop_A n env (tr @ [SendAll heartbeat, Sleep interval])) =
      (tr @ [SendAll heartbeat, Sleep interval]) @ ys" "set ys \<subseteq> {SendAll heartbeat, Sleep interval}"
    by blast
  then show ?case
    by (cases "env (length tr)"; cases "env (Suc (length tr))")
       (simp_all add: perform_def)
qed

lemma loop_B_via_A: "loop_B n env tr = except_inner_B env (loop_A n env tr) k"
proof (induction n arbitrary: tr)
  case 0
  show ?case by simp
next
  case (Suc n)
  show ?case
    by (cases "env (length tr)"; cases "env (Suc (length tr))")
       (simp_all add: perform_def Suc.IH)
qed

subsection \<open>A run up to its first exception\<close>

lemma split_index:
  assumes "3 \<le> (j::nat)" "j < 3 + 2 * fuel"
  obtains i d :: nat where "j = 3 + 2 * i + d" "d \<le> 1" "i < fuel"
proof
  show "j = 3 + 2 * ((j - 3) div 2) + (j - 3) mod 2" using assms by simp
  show "(j - 3) mod 2 \<le> 1" by simp
  show "(j - 3) div 2 < fuel" using assms by simp
qed

lemma loop_at_fault:
  assumes q: "\<forall>k<j. env k = None" and e: "env j = Some e"
    and j: "3 \<le> j" "j < 3 + 2 * fuel"
  shows "loop_A fuel env [SocketNew, Connect host port, Print msg_connected] =
           (Raise e, calls_through host port j)"
proof -
  from j obtain i d where ij: "j = 3 + 2 * i + d" "d \<le> 1" "i < fuel"
    by (rule split_index)
  let ?pre = "[SocketNew, Connect host port, Print msg_connected]"
  have len: "length ?pre = 3" by simp
  have "\<forall>k. length ?pre \<le> k \<and> k < length ?pre + 2 * i + d \<longrightarrow> env k = None"
    unfolding len using q ij(1) by simp
  moreover have "env (length ?pre + 2 * i + d) = Some e"
    unfolding len using e ij(1) by simp
  ultimately have "loop_A fuel env ?pre =
      (Raise e, ?pre @ beats i @ take (Suc d) [SendAll heartbeat, Sleep interval])"
    using ij(2,3) by (rule loop_A_fault)
  then show ?thesis
    unfolding ij(1) calls_through_loop [OF ij(2)] undisturbed_def by simp
qed

lemma main_A_fault_in_loop:
  assumes q: "\<forall>k<j. env k = None" and e: "env j = Some e"
    and j: "3 \<le> j" "j < 3 + 2 * fuel"
  shows "main_A fuel env host port =
           release env (except_A env (Raise e, calls_through host port j))"
proof -
  from q j(1) have "env 0 = None" "env (Suc 0) = None" "env 2 = None" by simp_all
  then show ?thesis
    unfolding main_A_def
    by (simp add: perform_def loop_at_fault [OF q e j] numeral_2_eq_2)
qed

lemma main_B_fault_in_loop:
  assumes q: "\<forall>k<j. env k = None" and e: "env j = Some e"
    and j: "3 \<le> j" "j < 3 + 2 * fuel"
  shows "main_B fuel env host port =
           release env (except_outer_B env
             (if caught_B e then perform env (Print msg_lost_B) (calls_through host port j)
              else (Raise e, calls_through host port j)))"
proof -
  from q j(1) have "env 0 = None" "env (Suc 0) = None" "env 2 = None" by simp_all
  then show ?thesis
    unfolding main_B_def
    by (simp add: perform_def loop_B_via_A [where k = "\<lambda>tr. (Done, tr)"]
          loop_at_fault [OF q e j] numeral_2_eq_2)
qed

lemma main_A_fault_connect:
  assumes "env 0 = None" "env 1 = Some e"
  shows "main_A fuel env host port = release env (Raise e, [SocketNew, Connect host port])"
  using assms unfolding main_A_def by (simp add: perform_def)

lemma main_B_fault_connect:
  assumes "env 0 = None" "env 1 = Some e"
  shows "main_B fuel env host port =
           release env (except_outer_B env (Raise e, [SocketNew, Connect host port]))"
  using assms unfolding main_B_def by (simp add: perform_def)

lemma main_A_fault_banner:
  assumes "env 0 = None" "env 1 = None" "env 2 = Some e"
  shows "main_A fuel env host port =
           release env (Raise e, [SocketNew, Connect host port, Print msg_connected])"
  using assms unfolding main_A_def by (simp add: perform_def numeral_2_eq_2)

lemma main_B_fault_banner:
  assumes "env 0 = None" "env 1 = None" "env 2 = Some e"
  shows "main_B fuel env host port =
           release env (except_outer_B env
             (Raise e, [SocketNew, Connect host port, Print msg_connected]))"
  using assms unfolding main_B_def by (simp add: perform_def numeral_2_eq_2)

lemma main_A_undisturbed:
  assumes "\<forall>k<3 + 2 * fuel. env k = None"
  shows "main_A fuel env host port = (Pending, undisturbed host port fuel)"
proof -
  let ?pre = "[SocketNew, Connect host port, Print msg_connected]"
  have "\<forall>k. length ?pre \<le> k \<and> k < length ?pre + 2 * fuel \<longrightarrow> env k = None"
    using assms by simp
  from loop_A_quiet [OF this, of 0]
  have l: "loop_A fuel env ?pre = (Pending, ?pre @ beats fuel)" by simp
  from assms have "env 0 = None" "env (Suc 0) = None" "env 2 = None" by simp_all
  then show ?thesis
    unfolding main_A_def undisturbed_def
    by (simp add: perform_def l numeral_2_eq_2)
qed

lemma main_B_undisturbed:
  assumes "\<forall>k<3 + 2 * fuel. env k = None"
  shows "main_B fuel env host port = (Pending, undisturbed host port fuel)"
proof -
  let ?pre = "[SocketNew, Connect host port, Print msg_connected]"
  have "\<forall>k. length ?pre \<le> k \<and> k < length ?pre + 2 * fuel \<longrightarrow> env k = None"
    using assms by simp
  from loop_A_quiet [OF this, of 0]
  have l: "loop_A fuel env ?pre = (Pending, ?pre @ beats fuel)" by simp
  from assms have "env 0 = None" "env (Suc 0) = None" "env 2 = None" by simp_all
  then show ?thesis
    unfolding main_B_def undisturbed_def
    by (simp add: perform_def l loop_B_via_A [where k = "\<lambda>tr. (Done, tr)"] numeral_2_eq_2)
qed

subsection \<open>Handlers only add prints, the release only adds the close\<close>

lemma release_trace:
  "snd (release env x) = (if fst x = Pending then snd x else snd x @ [Close])"
  by (cases x; cases "fst x"; cases "env (length (snd x))") (simp_all add: perform_def)

lemma release_Pending: "fst (release env x) = Pending \<longleftrightarrow> fst x = Pending"
  by (cases x; cases "fst x"; cases "env (length (snd x))") (simp_all add: perform_def)

lemma except_A_trace:
  "\<exists>ys. snd (except_A env x) = snd x @ ys \<and>
        set ys \<subseteq> {Print msg_disconnected_A, Print msg_interrupted_A}"
  by (cases x; cases "fst x") (simp_all add: perform_def)

lemma except_A_Pending: "fst (except_A env x) = Pending \<longleftrightarrow> fst x = Pending"
  by (cases x; cases "fst x"; cases "env (length (snd x))") (simp_all add: perform_def)

lemma except_outer_B_trace:
  "\<exists>ys. snd (except_outer_B env x) = snd x @ ys \<and> (\<forall>c\<in>set ys. \<exists>m. c = Print m)"
proof (cases x)
  case (Pair r tr)
  show ?thesis
  proof (cases r)
    case (Raise e)
    then show ?thesis using Pair
      by (cases e; cases "env (length tr)") (simp_all add: perform_def)
  qed (simp_all add: Pair)
qed

lemma except_outer_B_Pending: "fst (except_outer_B env x) = Pending \<longleftrightarrow> fst x = Pending"
proof (cases x)
  case (Pair r tr)
  show ?thesis
  proof (cases r)
    case (Raise e)
    then show ?thesis using Pair
      by (cases e; cases "env (length tr)") (simp_all add: perform_def)
  qed (simp_all add: Pair)
qed

lemma except_inner_B_trace:
  "fst x \<noteq> Done \<Longrightarrow>
   \<exists>ys. snd (except_inner_B env x k) = snd x @ ys \<and> set ys \<subseteq> {Print msg_lost_B}"
  by (cases x; cases "fst x") (simp_all add: perform_def)

lemma except_inner_B_Pending:
  "fst x \<noteq> Done \<Longrightarrow> fst (except_inner_B env x k) = Pending \<longleftrightarrow> fst x = Pending"
  by (cases x; cases "fst x"; cases "env (length (snd x))") (simp_all add: perform_def)

text \<open>The calls a script makes between creating the socket and releasing it.\<close>

lemma body_A_trace:
  "\<exists>ys. snd (andthen (perform env (Connect host port) [SocketNew]) (\<lambda>tr.
            andthen (perform env (Print msg_connected) tr) (\<lambda>tr.
            except_A env (loop_A fuel env tr)))) = [SocketNew] @ ys \<and>
        set ys \<subseteq> {Connect host port, Print msg_connected, SendAll heartbeat, Sleep interval,
                   Print msg_disconnected_A, Print msg_interrupted_A}"
proof -
  let ?pre = "[SocketNew, Connect host port, Print msg_connected]"
  obtain ys where ys: "snd (loop_A fuel env ?pre) = ?pre @ ys"
      "set ys \<subseteq> {SendAll heartbeat, Sleep interval}"
    using loop_A_trace by blast
  obtain zs where zs: "snd (except_A env (loop_A fuel env ?pre)) = snd (loop_A fuel env ?pre) @ zs"
      "set zs \<subseteq> {Print msg_disconnected_A, Print msg_interrupted_A}"
    using except_A_trace by blast
  show ?thesis
  proof (cases "env (Suc 0)")
    case (Some e)
    then show ?thesis by (simp add: perform_def)
  next
    case None
    note c = this
    show ?thesis
    proof (cases "env 2")
      case (Some e)
      with c show ?thesis by (simp add: perform_def numeral_2_eq_2)
    next
      case None
      with c ys zs show ?thesis
        by (auto simp: perform_def numeral_2_eq_2)
    qed
  qed
qed

lemma body_B_trace:
  "\<exists>ys. snd (except_outer_B env
            (andthen (perform env (Connect host port) [SocketNew]) (\<lambda>tr.
             andthen (perform env (Print msg_connected) tr) (\<lambda>tr.
             loop_B fuel env tr)))) = [SocketNew] @ ys \<and>
        (\<forall>c\<in>set ys. c = Connect host port \<or> c = SendAll heartbeat \<or> c = Sleep interval
                       \<or> (\<exists>m. c = Print m))"
proof -
  let ?pre = "[SocketNew, Connect host port, Print msg_connected]"
  let ?k = "\<lambda>tr. (Done, tr)"
  let ?body = "andthen (perform env (Connect host port) [SocketNew]) (\<lambda>tr.
             andthen (perform env (Print msg_connected) tr) (\<lambda>tr.
             loop_B fuel env tr))"
  have "\<exists>ys. snd ?body = [SocketNew] @ ys \<and>
        (\<forall>c\<in>set ys. c = Connect host port \<or> c = SendAll heartbeat \<or> c = Sleep interval
                       \<or> (\<exists>m. c = Print m))"
  proof -
    obtain ys where ys: "snd (loop_A fuel env ?pre) = ?pre @ ys"
        "set ys \<subseteq> {SendAll heartbeat, Sleep interval}"
      using loop_A_trace by blast
    obtain zs where zs: "snd (except_inner_B env (loop_A fuel env ?pre) ?k) =
          snd (loop_A fuel env ?pre) @ zs" "set zs \<subseteq> {Print msg_lost_B}"
      using except_inner_B_trace [OF loop_A_not_Done] by blast
    show ?thesis
    proof (cases "env (Suc 0)")
      case (Some e)
      then show ?thesis by (simp add: perform_def)
    next
      case None
      note c = this
      show ?thesis
      proof (cases "env 2")
        case (Some e)
        with c show ?thesis by (simp add: perform_def numeral_2_eq_2)
      next
        case None
        with c ys zs show ?thesis
          by (auto simp: perform_def numeral_2_eq_2 loop_B_via_A [where k = ?k])
      qed
    qed
  qed
  then obtain ys where ys: "snd ?body = [SocketNew] @ ys"
    "\<forall>c\<in>set ys. c = Connect host port \<or> c = SendAll heartbeat \<or> c = Sleep interval
                       \<or> (\<exists>m. c = Print m)" by blast
  obtain zs where zs: "snd (except_outer_B env ?body) = snd ?body @ zs"
     "\<forall>c\<in>set zs. \<exists>m. c = Print m"
    using except_outer_B_trace by blast
  from ys zs show ?thesis by auto
qed

subsection \<open>The calls of any run\<close>

lemma main_A_trace:
  "\<exists>ys. snd (main_A fuel env host port) = [SocketNew] @ ys \<and>
     set ys \<subseteq> {Connect host port, Print msg_connected, SendAll heartbeat, Sleep interval,
                Print msg_disconnected_A, Print msg_interrupted_A, Close}"
proof (cases "env 0")
  case (Some e)
  then show ?thesis by (simp add: main_A_def perform_def)
next
  case None
  obtain ys where ys: "snd (andthen (perform env (Connect host port) [SocketNew]) (\<lambda>tr.
            andthen (perform env (Print msg_connected) tr) (\<lambda>tr.
            except_A env (loop_A fuel env tr)))) = [SocketNew] @ ys"
        "set ys \<subseteq> {Connect host port, Print msg_connected, SendAll heartbeat, Sleep interval,
                   Print msg_disconnected_A, Print msg_interrupted_A}"
    using body_A_trace by blast
  from None have "main_A fuel env host port =
      release env (andthen (perform env (Connect host port) [SocketNew]) (\<lambda>tr.
            andthen (perform env (Print msg_connected) tr) (\<lambda>tr.
            except_A env (loop_A fuel env tr))))"
    by (simp add: main_A_def perform_def)
  with ys show ?thesis
    by (auto simp: release_trace)
qed

lemma main_B_trace:
  "\<exists>ys. snd (main_B fuel env host port) = [SocketNew] @ ys \<and>
     (\<forall>c\<in>set ys. c = Connect host port \<or> c = SendAll heartbeat \<or> c = Sleep interval
                       \<or> c = Close \<or> (\<exists>m. c = Print m))"
proof (cases "env 0")
  case (Some e)
  then show ?thesis by (simp add: main_B_def perform_def)
next
  case None
  let ?body = "except_outer_B env
            (andthen (perform env (Connect host port) [SocketNew]) (\<lambda>tr.
             andthen (perform env (Print msg_connected) tr) (\<lambda>tr.
             loop_B fuel env tr)))"
  obtain ys where ys: "snd ?body = [SocketNew] @ ys"
        "\<forall>c\<in>set ys. c = Connect host port \<or> c = SendAll heartbeat \<or> c = Sleep interval
                       \<or> (\<exists>m. c = Print m)"
    using body_B_trace by blast
  from None have "main_B fuel env host port = release env ?body"
    by (simp add: main_B_def perform_def)
  with ys show ?thesis
    by (auto simp: release_trace)
qed

subsection \<open>Completed calls, printed lines and the wire\<close>

lemma completed_append:
  "completed env (xs @ ys) =
     completed env xs @ map snd (filter (\<lambda>(k, c). env k = None) (enumerate (length xs) ys))"
  by (simp add: completed_def enumerate_append_eq)



lemma completed_subset:
  "set (map snd (filter (\<lambda>(k, c). env k = None) (enumerate n ys))) \<subseteq> set ys"
proof
  fix c assume "c \<in> set (map snd (filter (\<lambda>(k, c). env k = None) (enumerate n ys)))"
  then obtain k where "(k, c) \<in> set (enumerate n ys)" by auto
  then show "c \<in> set ys" by (auto simp: in_set_enumerate_eq)
qed

lemma wire_append_silent:
  assumes "\<forall>c\<in>set ys. \<not> on_wire c"
  shows "wire env (xs @ ys) = wire env xs"
proof -
  have "filter on_wire (map snd (filter (\<lambda>(k, c). env k = None) (enumerate (length xs) ys))) = []"
    using assms completed_subset [of env "length xs" ys] by (auto simp: filter_empty_conv)
  then show ?thesis by (simp add: wire_def completed_append)
qed







subsection \<open>A run whose first exception is raised by call \<open>j\<close>\<close>

text \<open>
  The calls after the raising one are the handler's print, if a handler applies, and
  the close; they are taken to return.
\<close>

lemma main_A_first_fault:
  assumes j: "1 \<le> j" "j < 3 + 2 * fuel" and q: "\<forall>k<j. env k = None" and e: "env j = Some e"
    and h: "env (Suc j) = None" "env (Suc (Suc j)) = None"
  shows "main_A fuel env host port =
     (if 3 \<le> j \<and> caught_A e
      then (Done, calls_through host port j @ [Print msg_disconnected_A, Close])
      else if 3 \<le> j \<and> is_KeyboardInterrupt e
      then (Done, calls_through host port j @ [Print msg_interrupted_A, Close])
      else (Raise e, calls_through host port j @ [Close]))"
proof -
  have len: "length (calls_through host port j) = Suc j" by simp
  have r: "release env (Raise e, calls_through host port j) =
      (Raise e, calls_through host port j @ [Close])"
    using h(1) by (simp add: perform_def)
  from j(1) have "j = Suc 0 \<or> j = 2 \<or> 3 \<le> j" by arith
  then show ?thesis
  proof (elim disjE)
    assume j1: "j = Suc 0"
    with q e have "env 0 = None" "env 1 = Some e" by simp_all
    then have "main_A fuel env host port = release env (Raise e, [SocketNew, Connect host port])"
      by (rule main_A_fault_connect)
    also have "[SocketNew, Connect host port] = calls_through host port j"
      unfolding j1 by (simp only: calls_through_1)
    finally show ?thesis using r j1 by simp
  next
    assume j2: "j = 2"
    with q e have "env 0 = None" "env 1 = None" "env 2 = Some e" by simp_all
    then have "main_A fuel env host port =
        release env (Raise e, [SocketNew, Connect host port, Print msg_connected])"
      by (rule main_A_fault_banner)
    also have "[SocketNew, Connect host port, Print msg_connected] = calls_through host port j"
      unfolding j2 by (simp only: calls_through_2)
    finally show ?thesis using r j2 by simp
  next
    assume j3: "3 \<le> j"
    have "main_A fuel env host port =
        release env (except_A env (Raise e, calls_through host port j))"
      using q e j3 j(2) by (rule main_A_fault_in_loop)
    then show ?thesis
      using h j3 r by (simp add: perform_def)
  qed
qed

lemma main_B_first_fault:
  assumes j: "1 \<le> j" "j < 3 + 2 * fuel" and q: "\<forall>k<j. env k = None"
    and e: "env j = Some (Exn c m)"
    and h: "env (Suc j) = None" "env (Suc (Suc j)) = None"
  shows "main_B fuel env host port =
     (if 3 \<le> j \<and> caught_B (Exn c m)
      then (Done, calls_through host port j @ [Print msg_lost_B, Close])
      else if c \<noteq> KeyboardInterrupt
      then (SysExit 1, calls_through host port j @ [Print (msg_could_not_connect_B m), Close])
      else (Raise (Exn c m), calls_through host port j @ [Close]))"
proof -
  have r: "release env (except_outer_B env (Raise (Exn c m), calls_through host port j)) =
      (if c \<noteq> KeyboardInterrupt
       then (SysExit 1, calls_through host port j @ [Print (msg_could_not_connect_B m), Close])
       else (Raise (Exn c m), calls_through host port j @ [Close]))"
    using h by (simp add: perform_def)
  from j(1) have "j = Suc 0 \<or> j = 2 \<or> 3 \<le> j" by arith
  then show ?thesis
  proof (elim disjE)
    assume j1: "j = Suc 0"
    with q e have "env 0 = None" "env 1 = Some (Exn c m)" by simp_all
    then have "main_B fuel env host port =
        release env (except_outer_B env (Raise (Exn c m), [SocketNew, Connect host port]))"
      by (rule main_B_fault_connect)
    also have "[SocketNew, Connect host port] = calls_through host port j"
      unfolding j1 by (simp only: calls_through_1)
    finally show ?thesis using r j1 by simp
  next
    assume j2: "j = 2"
    with q e have "env 0 = None" "env 1 = None" "env 2 = Some (Exn c m)" by simp_all
    then have "main_B fuel env host port =
        release env (except_outer_B env
          (Raise (Exn c m), [SocketNew, Connect host port, Print msg_connected]))"
      by (rule main_B_fault_banner)
    also have "[SocketNew, Connect host port, Print msg_connected] = calls_through host port j"
      unfolding j2 by (simp only: calls_through_2)
    finally show ?thesis using r j2 by simp
  next
    assume j3: "3 \<le> j"
    have "main_B fuel env host port =
           release env (except_outer_B env
             (if caught_B (Exn c m)
              then perform env (Print msg_lost_B) (calls_through host port j)
              else (Raise (Exn c m), calls_through host port j)))"
      using q e j3 j(2) by (rule main_B_fault_in_loop)
    then show ?thesis
      using h j3 r by (simp add: perform_def)
  qed
qed


text \<open>
  What the handlers of the two scripts do with a disconnect error raised in the loop:
  heartbeat_client.py handles all three classes, heartbeat.py two of them.
\<close>

lemma peer_disconnect_handled:
  assumes "3 \<le> j" and "j < 3 + 2 * fuel" and "\<forall>k<j. env k = None"
    and "env j = Some (Exn c m)"
    and "env (Suc j) = None" and "env (Suc (Suc j)) = None"
  shows "caught_B (Exn c m) \<Longrightarrow> main_B fuel env host port =
           (Done, calls_through host port j @ [Print msg_lost_B, Close])"
    and "caught_A (Exn c m) \<Longrightarrow> main_A fuel env host port =
           (Done, calls_through host port j @ [Print msg_disconnected_A, Close])"
proof -
  from assms(1) have j1: "1 \<le> j" by simp
  show "caught_B (Exn c m) \<Longrightarrow> main_B fuel env host port =
           (Done, calls_through host port j @ [Print msg_lost_B, Close])"
    using main_B_first_fault [OF j1 assms(2-6), of host port] assms(1) by simp
  show "caught_A (Exn c m) \<Longrightarrow> main_A fuel env host port =
           (Done, calls_through host port j @ [Print msg_disconnected_A, Close])"
    using main_A_first_fault [OF j1 assms(2-6), of host port] assms(1) by simp
qed

subsection \<open>The socket is released; handlers are silent on the wire\<close>

lemma main_A_closes:
  assumes "env 0 = None"
  shows "\<exists>ys. set ys \<subseteq> {Connect host port, Print msg_connected, SendAll heartbeat,
                        Sleep interval, Print msg_disconnected_A, Print msg_interrupted_A} \<and>
          snd (main_A fuel env host port) =
            [SocketNew] @ ys @ (if fst (main_A fuel env host port) = Pending then [] else [Close])"
proof -
  let ?body = "andthen (perform env (Connect host port) [SocketNew]) (\<lambda>tr.
            andthen (perform env (Print msg_connected) tr) (\<lambda>tr.
            except_A env (loop_A fuel env tr)))"
  obtain ys where ys: "snd ?body = [SocketNew] @ ys"
        "set ys \<subseteq> {Connect host port, Print msg_connected, SendAll heartbeat, Sleep interval,
                   Print msg_disconnected_A, Print msg_interrupted_A}"
    using body_A_trace by blast
  from assms have m: "main_A fuel env host port = release env ?body"
    by (simp add: main_A_def perform_def)
  have "snd (main_A fuel env host port) =
      [SocketNew] @ ys @ (if fst (main_A fuel env host port) = Pending then [] else [Close])"
    unfolding m release_trace release_Pending ys(1) by simp
  with ys(2) show ?thesis by blast
qed

lemma main_B_closes:
  assumes "env 0 = None"
  shows "\<exists>ys. (\<forall>c\<in>set ys. c = Connect host port \<or> c = SendAll heartbeat \<or> c = Sleep interval
                       \<or> (\<exists>m. c = Print m)) \<and>
          snd (main_B fuel env host port) =
            [SocketNew] @ ys @ (if fst (main_B fuel env host port) = Pending then [] else [Close])"
proof -
  let ?body = "except_outer_B env
            (andthen (perform env (Connect host port) [SocketNew]) (\<lambda>tr.
             andthen (perform env (Print msg_connected) tr) (\<lambda>tr.
             loop_B fuel env tr)))"
  obtain ys where ys: "snd ?body = [SocketNew] @ ys"
        "\<forall>c\<in>set ys. c = Connect host port \<or> c = SendAll heartbeat \<or> c = Sleep interval
                       \<or> (\<exists>m. c = Print m)"
    using body_B_trace by blast
  from assms have m: "main_B fuel env host port = release env ?body"
    by (simp add: main_B_def perform_def)
  have "snd (main_B fuel env host port) =
      [SocketNew] @ ys @ (if fst (main_B fuel env host port) = Pending then [] else [Close])"
    unfolding m release_trace release_Pending ys(1) by simp
  with ys(2) show ?thesis by blast
qed

lemma main_no_socket:
  assumes "env 0 = Some e"
  shows "main_A fuel env host port = (Raise e, [SocketNew])"
    and "main_B fuel env host port = (Raise e, [SocketNew])"
  using assms by (simp_all add: main_A_def main_B_def perform_def)


lemma wire_release: "wire env (snd (release env x)) = wire env (snd x)"
  unfolding release_trace by (simp add: wire_append_silent)

lemma wire_except_A: "wire env (snd (except_A env x)) = wire env (snd x)"
proof -
  obtain ys where ys: "snd (except_A env x) = snd x @ ys"
      "set ys \<subseteq> {Print msg_disconnected_A, Print msg_interrupted_A}"
    using except_A_trace by blast
  from ys(2) have "\<forall>c\<in>set ys. \<not> on_wire c" by auto
  then show ?thesis unfolding ys(1) by (rule wire_append_silent)
qed

lemma wire_except_outer_B: "wire env (snd (except_outer_B env x)) = wire env (snd x)"
proof -
  obtain ys where ys: "snd (except_outer_B env x) = snd x @ ys"
      "\<forall>c\<in>set ys. \<exists>m. c = Print m"
    using except_outer_B_trace by blast
  from ys(2) have "\<forall>c\<in>set ys. \<not> on_wire c" by auto
  then show ?thesis unfolding ys(1) by (rule wire_append_silent)
qed

lemma wire_except_inner_B:
  assumes "fst x \<noteq> Done"
  shows "wire env (snd (except_inner_B env x k)) = wire env (snd x)"
proof -
  obtain ys where ys: "snd (except_inner_B env x k) = snd x @ ys"
      "set ys \<subseteq> {Print msg_lost_B}"
    using except_inner_B_trace [OF assms] by blast
  from ys(2) have "\<forall>c\<in>set ys. \<not> on_wire c" by auto
  then show ?thesis unfolding ys(1) by (rule wire_append_silent)
qed


subsection \<open>The bound does not change a run that has ended\<close>

text \<open>
  The first argument of \<open>main_A\<close> and \<open>main_B\<close> only limits how many rounds of the loop
  are looked at: a run that has ended within the bound is the same under any larger
  bound.
\<close>

lemma loop_A_more_fuel:
  "fst (loop_A n env tr) \<noteq> Pending \<Longrightarrow> loop_A (n + k) env tr = loop_A n env tr"
proof (induction n arbitrary: tr)
  case 0
  then show ?case by simp
next
  case (Suc n)
  then show ?case
    by (cases "env (length tr)"; cases "env (Suc (length tr))") (simp_all add: perform_def)
qed

lemma main_A_more_fuel:
  assumes "fst (main_A fuel env host port) \<noteq> Pending"
  shows "main_A (fuel + k) env host port = main_A fuel env host port"
proof (cases "env 0 = None \<and> env 1 = None \<and> env 2 = None")
  case True
  let ?pre = "[SocketNew, Connect host port, Print msg_connected]"
  have m: "main_A n env host port = release env (except_A env (loop_A n env ?pre))" for n
    using True by (simp add: main_A_def perform_def eval_nat_numeral)
  from assms have "fst (loop_A fuel env ?pre) \<noteq> Pending"
    unfolding m by (simp add: release_Pending except_A_Pending)
  then show ?thesis
    unfolding m by (simp add: loop_A_more_fuel)
next
  case False
  then show ?thesis
    by (cases "env 0"; cases "env 1"; cases "env 2")
       (simp_all add: main_A_def perform_def eval_nat_numeral)
qed

lemma main_B_more_fuel:
  assumes "fst (main_B fuel env host port) \<noteq> Pending"
  shows "main_B (fuel + k) env host port = main_B fuel env host port"
proof (cases "env 0 = None \<and> env 1 = None \<and> env 2 = None")
  case True
  let ?pre = "[SocketNew, Connect host port, Print msg_connected]"
  let ?k = "\<lambda>tr. (Done, tr)"
  have m: "main_B n env host port =
      release env (except_outer_B env (except_inner_B env (loop_A n env ?pre) ?k))" for n
    using True
    by (simp add: main_B_def perform_def eval_nat_numeral loop_B_via_A [where k = ?k])
  from assms have "fst (loop_A fuel env ?pre) \<noteq> Pending"
    unfolding m
    by (simp add: release_Pending except_outer_B_Pending
          except_inner_B_Pending [OF loop_A_not_Done])
  then show ?thesis
    unfolding m by (simp add: loop_A_more_fuel)
next
  case False
  then show ?thesis
    by (cases "env 0"; cases "env 1"; cases "env 2")
       (simp_all add: main_B_def perform_def eval_nat_numeral)
qed

subsection \<open>Exit status and printed lines after the handlers\<close>











section \<open>The claims\<close>

text \<open>
  Claim C1. Once the connection is established, both scripts send exactly the ten bytes
  \<open>heartbeat\n\<close>, then sleep two seconds, round after round: as long as no call raises,
  after \<open>n\<close> rounds the calls made are the socket creation, the connect, the banner
  and \<open>n\<close> times a send of these bytes followed by a sleep of 2, and the script is still
  running; each further round appends one send and one sleep. No run of either script,
  whatever the environment does, contains a read from the socket.
\<close>

theorem sends_heartbeat_then_sleeps:
  "heartbeat = ''heartbeat'' @ [CHR 0x0A] \<and> length heartbeat = 10 \<and> interval = 2
   \<and> undisturbed host port n =
        [SocketNew, Connect host port, Print msg_connected] @
        concat (replicate n [SendAll (''heartbeat'' @ [CHR 0x0A]), Sleep 2])
   \<and> ((\<forall>k<3 + 2 * n. env k = None) \<longrightarrow>
        main_A n env host port = (Pending, undisturbed host port n) \<and>
        main_B n env host port = (Pending, undisturbed host port n))
   \<and> undisturbed host port (Suc n) =
        undisturbed host port n @ [SendAll heartbeat, Sleep interval]
   \<and> Recv m \<notin> set (snd (main_A fuel env' host port))
   \<and> Recv m \<notin> set (snd (main_B fuel env' host port))"
proof -
  have 1: "heartbeat = ''heartbeat'' @ [CHR 0x0A] \<and> length heartbeat = 10 \<and> interval = 2"
    by (simp add: heartbeat_def interval_def)
  have 0: "undisturbed host port n =
        [SocketNew, Connect host port, Print msg_connected] @
        concat (replicate n [SendAll (''heartbeat'' @ [CHR 0x0A]), Sleep 2])"
    by (simp add: undisturbed_def beats_def heartbeat_def interval_def)
  have 2: "(\<forall>k<3 + 2 * n. env k = None) \<longrightarrow>
        main_A n env host port = (Pending, undisturbed host port n) \<and>
        main_B n env host port = (Pending, undisturbed host port n)"
    using main_A_undisturbed main_B_undisturbed by blast
  have "beats (n + 1) = beats n @ beats 1" by (rule beats_add)
  then have 3: "undisturbed host port (Suc n) =
        undisturbed host port n @ [SendAll heartbeat, Sleep interval]"
    by (simp add: undisturbed_def beats_def)
  obtain ys where "snd (main_A fuel env' host port) = [SocketNew] @ ys"
     "set ys \<subseteq> {Connect host port, Print msg_connected, SendAll heartbeat, Sleep interval,
                Print msg_disconnected_A, Print msg_interrupted_A, Close}"
    using main_A_trace by blast
  then have 4: "Recv m \<notin> set (snd (main_A fuel env' host port))" by auto
  obtain zs where "snd (main_B fuel env' host port) = [SocketNew] @ zs"
     "\<forall>c\<in>set zs. c = Connect host port \<or> c = SendAll heartbeat \<or> c = Sleep interval
                       \<or> c = Close \<or> (\<exists>m. c = Print m)"
    using main_B_trace by blast
  then have 5: "Recv m \<notin> set (snd (main_B fuel env' host port))" by auto
  from 0 1 2 3 4 5 show ?thesis by blast
qed

theorem sends_heartbeat_then_sleeps_witness:
  "main_A 2 (\<lambda>k. None) ''127.0.0.1'' 9999 =
     (Pending, [SocketNew, Connect ''127.0.0.1'' 9999,
                Print ''Python: Connected to QuPath workflow, sending heartbeats.'',
                SendAll (''heartbeat'' @ [CHR 0x0A]), Sleep 2,
                SendAll (''heartbeat'' @ [CHR 0x0A]), Sleep 2]) \<and>
   main_B 2 (\<lambda>k. None) ''127.0.0.1'' 9999 =
     (Pending, [SocketNew, Connect ''127.0.0.1'' 9999,
                Print ''Python: Connected to QuPath workflow, sending heartbeats.'',
                SendAll (''heartbeat'' @ [CHR 0x0A]), Sleep 2,
                SendAll (''heartbeat'' @ [CHR 0x0A]), Sleep 2])"
proof -
  note t = sends_heartbeat_then_sleeps [of "''127.0.0.1''" 9999 2 "\<lambda>k. None"]
  have u: "undisturbed ''127.0.0.1'' 9999 2 =
        [SocketNew, Connect ''127.0.0.1'' 9999, Print msg_connected] @
        concat (replicate 2 [SendAll (''heartbeat'' @ [CHR 0x0A]), Sleep 2])"
    by (rule t [THEN conjunct2, THEN conjunct2, THEN conjunct2, THEN conjunct1])
  have m: "main_A 2 (\<lambda>k. None) ''127.0.0.1'' 9999 = (Pending, undisturbed ''127.0.0.1'' 9999 2) \<and>
        main_B 2 (\<lambda>k. None) ''127.0.0.1'' 9999 = (Pending, undisturbed ''127.0.0.1'' 9999 2)"
    using t [THEN conjunct2, THEN conjunct2, THEN conjunct2, THEN conjunct2, THEN conjunct1]
    by simp
  have r: "replicate 2 x = [x, x]" for x :: "call list"
    by (simp add: numeral_2_eq_2)
  show ?thesis
    unfolding m [THEN conjunct1] m [THEN conjunct2] u r
    by (simp add: msg_connected_def)
qed

text \<open>
  Claim C10. The send loop has no exit of its own: in an environment where no call
  raises, both scripts are still running after any number of rounds; and a run that has
  ended within \<open>fuel\<close> rounds has seen one of its first \<open>3 + 2 * fuel\<close> calls raise.
\<close>

theorem loop_has_no_exception_free_exit:
  "((\<forall>k. env k = None) \<longrightarrow>
      fst (main_A fuel env host port) = Pending \<and> fst (main_B fuel env host port) = Pending)
   \<and> (fst (main_A fuel env host port) \<noteq> Pending \<longrightarrow> (\<exists>k<3 + 2 * fuel. env k \<noteq> None))
   \<and> (fst (main_B fuel env host port) \<noteq> Pending \<longrightarrow> (\<exists>k<3 + 2 * fuel. env k \<noteq> None))"
proof -
  have a: "(\<forall>k<3 + 2 * fuel. env k = None) \<Longrightarrow> fst (main_A fuel env host port) = Pending"
    by (simp add: main_A_undisturbed)
  have b: "(\<forall>k<3 + 2 * fuel. env k = None) \<Longrightarrow> fst (main_B fuel env host port) = Pending"
    by (simp add: main_B_undisturbed)
  from a b show ?thesis by blast
qed

theorem loop_has_no_exception_free_exit_witness:
  "fst (main_A 7 (\<lambda>k. None) ''127.0.0.1'' 9999) = Pending \<and>
   fst (main_B 7 (\<lambda>k. None) ''127.0.0.1'' 9999) = Pending \<and>
   fst (main_A 7 (fault_at 4 (Exn BrokenPipeError ''[Errno 32] Broken pipe'')) ''127.0.0.1'' 9999) \<noteq> Pending \<and>
   (\<exists>k<3 + 2 * 7. fault_at 4 (Exn BrokenPipeError ''[Errno 32] Broken pipe'') k \<noteq> None)"
proof -
  have "fst (main_A 7 (fault_at 4 (Exn BrokenPipeError ''[Errno 32] Broken pipe'')) ''127.0.0.1'' 9999) \<noteq> Pending"
    by (simp add: main_A_def perform_def fault_at_def eval_nat_numeral)
  with loop_has_no_exception_free_exit [of "\<lambda>k. None" 7 "''127.0.0.1''" 9999]
    loop_has_no_exception_free_exit [of "fault_at 4 (Exn BrokenPipeError ''[Errno 32] Broken pipe'')" 7 "''127.0.0.1''" 9999]
  show ?thesis by simp
qed

text \<open>
  Claim C2. A peer-side disconnect error (connection reset, connection aborted, broken
  pipe) raised by a send is to be caught, reported with one message, and to end the process
  with status 0. heartbeat.py catches \<open>BrokenPipeError\<close> and \<open>ConnectionResetError\<close> only:
  when the first send raises \<open>ConnectionAbortedError\<close>, the exception leaves \<open>main\<close>
  unhandled after the socket is closed, no disconnect message is printed and the status
  is 1, where heartbeat_client.py on the same input prints its message and returns.
\<close>

theorem aborted_connection_unhandled_in_A:
  "main_A 1 (fault_at 3 (Exn ConnectionAbortedError ''[Errno 103] Software caused connection abort''))
      ''127.0.0.1'' 9999 =
     (Raise (Exn ConnectionAbortedError ''[Errno 103] Software caused connection abort''),
      [SocketNew, Connect ''127.0.0.1'' 9999, Print msg_connected, SendAll heartbeat, Close])
   \<and> exit_status
        (fault_at 3 (Exn ConnectionAbortedError ''[Errno 103] Software caused connection abort''))
        (main_A 1
          (fault_at 3 (Exn ConnectionAbortedError ''[Errno 103] Software caused connection abort''))
          ''127.0.0.1'' 9999) = Some 1
   \<and> printed (fault_at 3 (Exn ConnectionAbortedError ''[Errno 103] Software caused connection abort''))
        (snd (main_A 1
          (fault_at 3 (Exn ConnectionAbortedError ''[Errno 103] Software caused connection abort''))
          ''127.0.0.1'' 9999)) = [msg_connected]
   \<and> main_B 1 (fault_at 3 (Exn ConnectionAbortedError ''[Errno 103] Software caused connection abort''))
      ''127.0.0.1'' 9999 =
     (Done, [SocketNew, Connect ''127.0.0.1'' 9999, Print msg_connected, SendAll heartbeat,
             Print msg_lost_B, Close])"
  by (simp add: main_A_def main_B_def perform_def fault_at_def printed_def completed_def
        map_filter_simps)














text \<open>
  Claim C6. In both scripts the socket is created exactly once, and every run that ends
  after the socket was created, whether \<open>main\<close> returns, exits through \<open>sys.exit\<close> or
  lets an exception escape, closes it exactly once, as its last call.
\<close>

theorem socket_created_once_and_closed_on_exit:
  "count_list (snd (main_A fuel env host port)) SocketNew = 1
   \<and> count_list (snd (main_B fuel env host port)) SocketNew = 1
   \<and> (env 0 = None \<and> fst (main_A fuel env host port) \<noteq> Pending \<longrightarrow>
        count_list (snd (main_A fuel env host port)) Close = 1
        \<and> last (snd (main_A fuel env host port)) = Close)
   \<and> (env 0 = None \<and> fst (main_B fuel env host port) \<noteq> Pending \<longrightarrow>
        count_list (snd (main_B fuel env host port)) Close = 1
        \<and> last (snd (main_B fuel env host port)) = Close)"
proof -
  have a: "count_list (snd (main_A fuel env host port)) SocketNew = 1
     \<and> (fst (main_A fuel env host port) \<noteq> Pending \<longrightarrow>
        count_list (snd (main_A fuel env host port)) Close = 1
        \<and> last (snd (main_A fuel env host port)) = Close)" if h: "env 0 = None"
  proof -
    obtain ys where ys: "set ys \<subseteq> {Connect host port, Print msg_connected, SendAll heartbeat,
                        Sleep interval, Print msg_disconnected_A, Print msg_interrupted_A}"
       "snd (main_A fuel env host port) =
            [SocketNew] @ ys @ (if fst (main_A fuel env host port) = Pending then [] else [Close])"
      using main_A_closes [where env = env, OF h] by blast
    from ys(1) have "SocketNew \<notin> set ys" "Close \<notin> set ys" by auto
    then have "count_list ys SocketNew = 0" "count_list ys Close = 0" by simp_all
    then show ?thesis unfolding ys(2) by simp
  qed
  have b: "count_list (snd (main_B fuel env host port)) SocketNew = 1
     \<and> (fst (main_B fuel env host port) \<noteq> Pending \<longrightarrow>
        count_list (snd (main_B fuel env host port)) Close = 1
        \<and> last (snd (main_B fuel env host port)) = Close)" if h: "env 0 = None"
  proof -
    obtain ys where ys: "\<forall>c\<in>set ys. c = Connect host port \<or> c = SendAll heartbeat
                       \<or> c = Sleep interval \<or> (\<exists>m. c = Print m)"
       "snd (main_B fuel env host port) =
            [SocketNew] @ ys @ (if fst (main_B fuel env host port) = Pending then [] else [Close])"
      using main_B_closes [where env = env, OF h] by blast
    from ys(1) have "SocketNew \<notin> set ys" "Close \<notin> set ys" by auto
    then have "count_list ys SocketNew = 0" "count_list ys Close = 0" by simp_all
    then show ?thesis unfolding ys(2) by simp
  qed
  show ?thesis
  proof (cases "env 0")
    case None
    with a b show ?thesis by blast
  next
    case (Some e)
    then show ?thesis by (simp add: main_no_socket)
  qed
qed

theorem socket_created_once_and_closed_on_exit_witness:
  "count_list (snd (main_A 3 (fault_at 5 (Exn OtherOSError ''[Errno 110] Connection timed out''))
      ''127.0.0.1'' 9999)) Close = 1
   \<and> last (snd (main_A 3 (fault_at 5 (Exn OtherOSError ''[Errno 110] Connection timed out''))
      ''127.0.0.1'' 9999)) = Close
   \<and> count_list (snd (main_B 3 (fault_at 5 (Exn OtherOSError ''[Errno 110] Connection timed out''))
      ''127.0.0.1'' 9999)) Close = 1
   \<and> last (snd (main_B 3 (fault_at 5 (Exn OtherOSError ''[Errno 110] Connection timed out''))
      ''127.0.0.1'' 9999)) = Close"
proof -
  have "fst (main_A 3 (fault_at 5 (Exn OtherOSError ''[Errno 110] Connection timed out''))
      ''127.0.0.1'' 9999) \<noteq> Pending"
    "fst (main_B 3 (fault_at 5 (Exn OtherOSError ''[Errno 110] Connection timed out''))
      ''127.0.0.1'' 9999) \<noteq> Pending"
    by (simp_all add: main_A_def main_B_def perform_def fault_at_def eval_nat_numeral)
  moreover have "fault_at 5 (Exn OtherOSError ''[Errno 110] Connection timed out'') 0 = None"
    by (simp add: fault_at_def)
  ultimately show ?thesis
    using socket_created_once_and_closed_on_exit
      [of 3 "fault_at 5 (Exn OtherOSError ''[Errno 110] Connection timed out'')" "''127.0.0.1''" 9999]
    by blast
qed

text \<open>
  Claim C7. When the connect raises, both scripts end, for every bound on the loop,
  after that single connection attempt, and no send is ever issued.
\<close>

theorem failed_connect_is_not_retried:
  assumes "env 0 = None" and "env 1 = Some e"
  shows "fst (main_A fuel env host port) \<noteq> Pending
       \<and> filter is_Connect (snd (main_A fuel env host port)) = [Connect host port]
       \<and> filter is_SendAll (snd (main_A fuel env host port)) = []
       \<and> fst (main_B fuel env host port) \<noteq> Pending
       \<and> filter is_Connect (snd (main_B fuel env host port)) = [Connect host port]
       \<and> filter is_SendAll (snd (main_B fuel env host port)) = []"
proof -
  have a: "main_A fuel env host port = release env (Raise e, [SocketNew, Connect host port])"
    using assms by (rule main_A_fault_connect)
  have b: "main_B fuel env host port =
      release env (except_outer_B env (Raise e, [SocketNew, Connect host port]))"
    using assms by (rule main_B_fault_connect)
  obtain c m where e: "e = Exn c m" by (cases e)
  have A: "fst (main_A fuel env host port) \<noteq> Pending
       \<and> filter is_Connect (snd (main_A fuel env host port)) = [Connect host port]
       \<and> filter is_SendAll (snd (main_A fuel env host port)) = []"
    unfolding a by (cases "env 2") (simp_all add: perform_def eval_nat_numeral)
  have B: "fst (main_B fuel env host port) \<noteq> Pending
       \<and> filter is_Connect (snd (main_B fuel env host port)) = [Connect host port]
       \<and> filter is_SendAll (snd (main_B fuel env host port)) = []"
    unfolding b e
    by (cases "env 2"; cases "env 3") (simp_all add: perform_def eval_nat_numeral)
  from A B show ?thesis by blast
qed

theorem failed_connect_is_not_retried_witness:
  "fst (main_A 9 (fault_at 1 (Exn ConnectionRefusedError ''[Errno 111] Connection refused''))
      ''127.0.0.1'' 9999) \<noteq> Pending
   \<and> filter is_Connect (snd (main_A 9
        (fault_at 1 (Exn ConnectionRefusedError ''[Errno 111] Connection refused''))
        ''127.0.0.1'' 9999)) = [Connect ''127.0.0.1'' 9999]
   \<and> filter is_SendAll (snd (main_B 9
        (fault_at 1 (Exn ConnectionRefusedError ''[Errno 111] Connection refused''))
        ''127.0.0.1'' 9999)) = []"
  using failed_connect_is_not_retried
    [of "fault_at 1 (Exn ConnectionRefusedError ''[Errno 111] Connection refused'')"
        "Exn ConnectionRefusedError ''[Errno 111] Connection refused''" 9 "''127.0.0.1''" 9999]
  by (simp add: fault_at_def)


text \<open>
  Claim C8. Against the same environment and for the same number of rounds, the two
  scripts put the same sequence of payloads and pauses on the wire.
\<close>

theorem same_bytes_on_the_wire:
  "wire env (snd (main_A fuel env host port)) = wire env (snd (main_B fuel env host port))"
proof (cases "env 0")
  case (Some e)
  then show ?thesis by (simp add: main_no_socket)
next
  case None
  note s = this
  show ?thesis
  proof (cases "env 1")
    case (Some e)
    show ?thesis
      unfolding main_A_fault_connect [where env = env, OF s Some] main_B_fault_connect [where env = env, OF s Some]
      by (simp only: wire_release wire_except_outer_B snd_conv)
  next
    case None
    note c = this
    show ?thesis
    proof (cases "env 2")
      case (Some e)
      show ?thesis
        unfolding main_A_fault_banner [where env = env, OF s c Some] main_B_fault_banner [where env = env, OF s c Some]
        by (simp only: wire_release wire_except_outer_B snd_conv)
    next
      case None
      let ?L = "loop_A fuel env [SocketNew, Connect host port, Print msg_connected]"
      have a: "main_A fuel env host port = release env (except_A env ?L)"
        using s c None by (simp add: main_A_def perform_def eval_nat_numeral)
      have b: "main_B fuel env host port =
          release env (except_outer_B env (except_inner_B env ?L (\<lambda>tr. (Done, tr))))"
        using s c None
        by (simp add: main_B_def perform_def eval_nat_numeral
              loop_B_via_A [where k = "\<lambda>tr. (Done, tr)"])
      show ?thesis
        unfolding a b
        by (simp only: wire_release wire_except_outer_B wire_except_A
              wire_except_inner_B [OF loop_A_not_Done])
    qed
  qed
qed

theorem same_bytes_on_the_wire_witness:
  "wire (fault_at 6 (Exn ConnectionResetError ''[Errno 104] Connection reset by peer''))
     (snd (main_B 3 (fault_at 6 (Exn ConnectionResetError ''[Errno 104] Connection reset by peer''))
        ''127.0.0.1'' 9999)) =
   [SendAll heartbeat, Sleep interval, SendAll heartbeat]"
proof -
  have "wire (fault_at 6 (Exn ConnectionResetError ''[Errno 104] Connection reset by peer''))
     (snd (main_A 3 (fault_at 6 (Exn ConnectionResetError ''[Errno 104] Connection reset by peer''))
        ''127.0.0.1'' 9999)) =
   [SendAll heartbeat, Sleep interval, SendAll heartbeat]"
    by (simp add: main_A_def perform_def fault_at_def wire_def completed_def eval_nat_numeral)
  then show ?thesis
    using same_bytes_on_the_wire
      [of "fault_at 6 (Exn ConnectionResetError ''[Errno 104] Connection reset by peer'')"
          3 "''127.0.0.1''" 9999]
    by simp
qed

end
